theory Spec2Isabelle
  imports Complex_Main "HOL-Library.AList"
begin

section \<open>Data model\<close>

text \<open>
  The signal engine of \<^verbatim>\<open>cloud_app.py\<close> is the function \<^verbatim>\<open>calculate_signal(df)\<close>.
  It works on a pandas DataFrame: a date index and named columns of equal length.

  A float64 cell is a finite number, an infinity or NaN.  Finite numbers are taken as
  exact reals, and the arithmetic inside a full window is exact: rounding and overflow of
  the float64 operations are outside this model.  The value that pandas stores for a defined
  average or correlation is the float64 result of its own kernels and may differ from the
  exact value computed here.  Independent of rounding are: which cells are NaN because
  their window is short or holds a missing value, how the label of a row is read from the
  cells of that row, and the shape of the frame.
\<close>

datatype float = Finite real | PosInf | NegInf | NaN

text \<open>The four labels that \<^verbatim>\<open>get_status\<close> returns (the source's strings carry an emoji prefix).\<close>

datatype signal = STRONG_LONG | DIVERGENCE | BUY_OPPORTUNITY | NEUTRAL

text \<open>A column is a float64 series or an object series of labels.\<close>

datatype column = FloatCol "float list" | LabelCol "signal list"

datatype error = KeyError string | DataError | TypeError

type_synonym date = int

record dataframe =
  index :: "date list"
  columns :: "(string \<times> column) list"

text \<open>
  Python passes the DataFrame by reference and \<^verbatim>\<open>df[name] = ...\<close> changes the object
  the caller holds.  Objects live in a store, addressed by references.
\<close>

type_synonym ref = nat
type_synonym heap = "ref \<Rightarrow> dataframe"

fun col_len :: "column \<Rightarrow> nat" where
  "col_len (FloatCol xs) = length xs"
| "col_len (LabelCol ls) = length ls"

section \<open>Float operations\<close>

text \<open>Python's \<^verbatim>\<open>a > b\<close> on floats: false as soon as one side is NaN.\<close>

fun fgt :: "float \<Rightarrow> float \<Rightarrow> bool" where
  "fgt (Finite a) (Finite b) = (b < a)"
| "fgt PosInf (Finite b) = True"
| "fgt PosInf NegInf = True"
| "fgt (Finite a) NegInf = True"
| "fgt a b = False"

text \<open>
  Division as numpy does it with its warnings silenced: a zero divisor gives NaN for
  \<open>0 / 0\<close> and a signed infinity otherwise.
\<close>

definition fdiv :: "real \<Rightarrow> real \<Rightarrow> float" where
  "fdiv a b =
     (if b \<noteq> 0 then Finite (a / b)
      else if a = 0 then NaN
      else if 0 < a then PosInf else NegInf)"

section \<open>Rolling windows\<close>

text \<open>The trailing window of at most \<open>w\<close> rows that ends at row \<open>i\<close>, row \<open>i\<close> included.\<close>

definition window_at :: "nat \<Rightarrow> 'a list \<Rightarrow> nat \<Rightarrow> 'a list" where
  "window_at w xs i = drop (Suc i - w) (take (Suc i) xs)"

text \<open>
  The valid observations of a window: pandas turns infinities into NaN before a rolling
  aggregation and skips NaN when it counts observations.
\<close>

fun observations :: "float list \<Rightarrow> real list" where
  "observations [] = []"
| "observations (Finite x # xs) = x # observations xs"
| "observations (_ # xs) = observations xs"

definition mean :: "real list \<Rightarrow> real" where
  "mean xs = sum_list xs / real (length xs)"

text \<open>The sample variance (one degree of freedom removed), as \<^verbatim>\<open>roll_var\<close> with \<^verbatim>\<open>ddof=1\<close>.\<close>

definition var :: "real list \<Rightarrow> real" where
  "var xs = (\<Sum>x\<leftarrow>xs. (x - mean xs)\<^sup>2) / (real (length xs) - 1)"

text \<open>
  \<^verbatim>\<open>series.rolling(window=w).mean()\<close>: \<^verbatim>\<open>min_periods\<close> defaults to the window size, so
  a row with fewer than \<open>w\<close> valid observations in its window is NaN.  On a full window
  the exact mean stands for the float64 value that pandas computes.
\<close>

definition mean_window :: "nat \<Rightarrow> float list \<Rightarrow> float" where
  "mean_window w win =
     (let obs = observations win
      in if length obs < w then NaN else Finite (mean obs))"

definition roll_mean :: "nat \<Rightarrow> float list \<Rightarrow> float list" where
  "roll_mean w xs = map (\<lambda>i. mean_window w (window_at w xs i)) [0..<length xs]"

text \<open>
  \<^verbatim>\<open>x.rolling(window=w).corr(y)\<close>, as pandas computes it per window:
  \<^verbatim>\<open>numerator = (mean(x*y) - mean(x)*mean(y)) * (count / (count - ddof))\<close>,
  \<^verbatim>\<open>denominator = (var(x) * var(y)) ** 0.5\<close>, \<^verbatim>\<open>result = numerator / denominator\<close>.
  The formula is evaluated exactly here, in float64 by pandas.
\<close>

definition corr_window :: "nat \<Rightarrow> float list \<Rightarrow> float list \<Rightarrow> float" where
  "corr_window w wx wy =
     (let ox = observations wx; oy = observations wy
      in if length ox < w \<or> length oy < w then NaN
         else
           let n = real (length ox);
               numerator = (mean (map2 (*) ox oy) - mean ox * mean oy) * (n / (n - 1));
               denominator = sqrt (var ox * var oy)
           in fdiv numerator denominator)"

definition roll_corr :: "nat \<Rightarrow> float list \<Rightarrow> float list \<Rightarrow> float list" where
  "roll_corr w xs ys =
     map (\<lambda>i. corr_window w (window_at w xs i) (window_at w ys i)) [0..<length xs]"

text \<open>A rolling aggregation of an object column raises pandas' DataError.\<close>

fun rolling_mean :: "nat \<Rightarrow> column \<Rightarrow> error + column" where
  "rolling_mean w (FloatCol xs) = Inr (FloatCol (roll_mean w xs))"
| "rolling_mean w (LabelCol ls) = Inl DataError"

fun rolling_corr :: "nat \<Rightarrow> column \<Rightarrow> column \<Rightarrow> error + column" where
  "rolling_corr w (FloatCol xs) (FloatCol ys) = Inr (FloatCol (roll_corr w xs ys))"
| "rolling_corr w c d = Inl DataError"

section \<open>DataFrame access\<close>

definition bind_result :: "'e + 'a \<Rightarrow> ('a \<Rightarrow> 'e + 'b) \<Rightarrow> 'e + 'b" where
  "bind_result r f = (case r of Inl e \<Rightarrow> Inl e | Inr x \<Rightarrow> f x)"

text \<open>\<^verbatim>\<open>df[name]\<close>: KeyError when the column is absent.\<close>

definition getitem :: "dataframe \<Rightarrow> string \<Rightarrow> error + column" where
  "getitem df name =
     (case map_of (columns df) name of None \<Rightarrow> Inl (KeyError name) | Some c \<Rightarrow> Inr c)"

text \<open>
  \<^verbatim>\<open>df[name] = c\<close> on the object at reference \<open>r\<close>: an existing column is replaced where
  it stands, a new one is appended.
\<close>

definition setitem :: "ref \<Rightarrow> string \<Rightarrow> column \<Rightarrow> heap \<Rightarrow> heap" where
  "setitem r name c h = h(r := (h r)\<lparr>columns := AList.update name c (columns (h r))\<rparr>)"

section \<open>Classification of one row\<close>

text \<open>The five fields of a row that \<^verbatim>\<open>get_status\<close> reads.\<close>

record row =
  Net_Liquidity :: float
  Liq_SMA_20 :: float
  BTC_Price :: float
  BTC_SMA_20 :: float
  Correlation :: float

definition get_status :: "row \<Rightarrow> signal" where
  "get_status r =
     (let liq_trend_up = fgt (Net_Liquidity r) (Liq_SMA_20 r);
          btc_trend_up = fgt (BTC_Price r) (BTC_SMA_20 r);
          high_corr = fgt (Correlation r) (Finite 0.5)
      in if liq_trend_up \<and> btc_trend_up \<and> high_corr then STRONG_LONG
         else if \<not> liq_trend_up \<and> btc_trend_up then DIVERGENCE
         else if liq_trend_up \<and> \<not> btc_trend_up then BUY_OPPORTUNITY
         else NEUTRAL)"

text \<open>
  \<^verbatim>\<open>row[name]\<close> for row \<open>i\<close> of the frame, read as a float operand of the comparison: KeyError
  when the column is absent, TypeError when the cell is a label.
\<close>

definition field_at :: "dataframe \<Rightarrow> string \<Rightarrow> nat \<Rightarrow> error + float" where
  "field_at df name i =
     (case map_of (columns df) name of
        None \<Rightarrow> Inl (KeyError name)
      | Some (LabelCol ls) \<Rightarrow> Inl TypeError
      | Some (FloatCol xs) \<Rightarrow> Inr (if i < length xs then xs ! i else NaN))"

definition row_at :: "dataframe \<Rightarrow> nat \<Rightarrow> error + row" where
  "row_at df i =
     bind_result (field_at df ''Net_Liquidity'' i) (\<lambda>nl.
     bind_result (field_at df ''Liq_SMA_20'' i) (\<lambda>ls.
     bind_result (field_at df ''BTC_Price'' i) (\<lambda>bp.
     bind_result (field_at df ''BTC_SMA_20'' i) (\<lambda>bs.
     bind_result (field_at df ''Correlation'' i) (\<lambda>co.
       Inr \<lparr>Net_Liquidity = nl, Liq_SMA_20 = ls, BTC_Price = bp,
            BTC_SMA_20 = bs, Correlation = co\<rparr>)))))"

fun collect :: "('e + 'a) list \<Rightarrow> 'e + 'a list" where
  "collect [] = Inr []"
| "collect (r # rs) =
     (case r of
        Inl e \<Rightarrow> Inl e
      | Inr x \<Rightarrow> (case collect rs of Inl e \<Rightarrow> Inl e | Inr xs \<Rightarrow> Inr (x # xs)))"

text \<open>
  \<^verbatim>\<open>df.apply(get_status, axis=1)\<close>: one label per row, in index order.  On a frame
  without rows pandas returns an empty float64 series where this definition returns the
  empty label column; the two agree on every frame that has a row, and the tables of the
  specification are never empty.
\<close>

definition apply_get_status :: "dataframe \<Rightarrow> error + signal list" where
  "apply_get_status df =
     collect (map (\<lambda>i. bind_result (row_at df i) (\<lambda>r. Inr (get_status r)))
                  [0..<length (index df)])"

section \<open>The signal engine\<close>

text \<open>
  \<^verbatim>\<open>calculate_signal(df)\<close>: four column assignments on the caller's object, then
  \<^verbatim>\<open>return df\<close>.  An exception leaves the assignments made before it in place.
\<close>

definition calculate_signal :: "ref \<Rightarrow> heap \<Rightarrow> (error + ref) \<times> heap" where
  "calculate_signal df h0 =
     (case bind_result (getitem (h0 df) ''Net_Liquidity'') (rolling_mean 20) of
        Inl e \<Rightarrow> (Inl e, h0)
      | Inr liq_sma \<Rightarrow>
     let h1 = setitem df ''Liq_SMA_20'' liq_sma h0 in
     (case bind_result (getitem (h1 df) ''BTC_Price'') (rolling_mean 20) of
        Inl e \<Rightarrow> (Inl e, h1)
      | Inr btc_sma \<Rightarrow>
     let h2 = setitem df ''BTC_SMA_20'' btc_sma h1 in
     (case bind_result (getitem (h2 df) ''Net_Liquidity'') (\<lambda>liq.
           bind_result (getitem (h2 df) ''BTC_Price'') (\<lambda>btc.
           rolling_corr 30 liq btc)) of
        Inl e \<Rightarrow> (Inl e, h2)
      | Inr corr \<Rightarrow>
     let h3 = setitem df ''Correlation'' corr h2 in
     (case apply_get_status (h3 df) of
        Inl e \<Rightarrow> (Inl e, h3)
      | Inr sigs \<Rightarrow>
     let h4 = setitem df ''Signal'' (LabelCol sigs) h3 in
     (Inr df, h4)))))"

section \<open>Well-formed input\<close>

text \<open>
  A DataFrame has pairwise distinct column names and one cell per index entry in every
  column.  The engine's input carries the two float columns it reads.
\<close>

definition float_col :: "dataframe \<Rightarrow> string \<Rightarrow> float list option" where
  "float_col df name =
     (case map_of (columns df) name of Some (FloatCol xs) \<Rightarrow> Some xs | _ \<Rightarrow> None)"

definition label_col :: "dataframe \<Rightarrow> string \<Rightarrow> signal list option" where
  "label_col df name =
     (case map_of (columns df) name of Some (LabelCol ls) \<Rightarrow> Some ls | _ \<Rightarrow> None)"

definition wf_frame :: "dataframe \<Rightarrow> bool" where
  "wf_frame df \<longleftrightarrow>
     distinct (map fst (columns df)) \<and>
     list_all (\<lambda>(name, c). col_len c = length (index df)) (columns df)"

definition valid_input :: "dataframe \<Rightarrow> bool" where
  "valid_input df \<longleftrightarrow>
     wf_frame df \<and> float_col df ''Net_Liquidity'' \<noteq> None \<and> float_col df ''BTC_Price'' \<noteq> None"

section \<open>Derived notions used in the statements\<close>

text \<open>
  The label column that the row-wise classification yields from the two input series
  and their rolling statistics.
\<close>

definition status_column :: "float list \<Rightarrow> float list \<Rightarrow> signal list" where
  "status_column liq btc =
     map (\<lambda>i. get_status \<lparr>Net_Liquidity = liq ! i, Liq_SMA_20 = roll_mean 20 liq ! i,
                            BTC_Price = btc ! i, BTC_SMA_20 = roll_mean 20 btc ! i,
                            Correlation = roll_corr 30 liq btc ! i\<rparr>)
         [0..<length liq]"

text \<open>The column list of the object once the four assignments are done.\<close>

definition engine_columns :: "float list \<Rightarrow> float list \<Rightarrow> (string \<times> column) list \<Rightarrow> (string \<times> column) list" where
  "engine_columns liq btc cs =
     AList.update ''Signal'' (LabelCol (status_column liq btc))
       (AList.update ''Correlation'' (FloatCol (roll_corr 30 liq btc))
         (AList.update ''BTC_SMA_20'' (FloatCol (roll_mean 20 btc))
           (AList.update ''Liq_SMA_20'' (FloatCol (roll_mean 20 liq)) cs)))"

text \<open>
  Pearson's correlation in the specification's words: the covariance of the two windows
  divided by the product of their sample standard deviations, undefined when either
  window has zero variance.
\<close>

definition covariance :: "real list \<Rightarrow> real list \<Rightarrow> real" where
  "covariance xs ys =
     (\<Sum>(x, y)\<leftarrow>zip xs ys. (x - mean xs) * (y - mean ys)) / (real (length xs) - 1)"

definition pearson :: "real list \<Rightarrow> real list \<Rightarrow> float" where
  "pearson xs ys =
     (if var xs = 0 \<or> var ys = 0 then NaN
      else Finite (covariance xs ys / (sqrt (var xs) * sqrt (var ys))))"

text \<open>The first \<open>k\<close> rows of a frame (\<^verbatim>\<open>df.head(k)\<close>), used to state the absence of look-ahead.\<close>

fun head_col :: "nat \<Rightarrow> column \<Rightarrow> column" where
  "head_col k (FloatCol xs) = FloatCol (take k xs)"
| "head_col k (LabelCol ls) = LabelCol (take k ls)"

definition head_rows :: "nat \<Rightarrow> dataframe \<Rightarrow> dataframe" where
  "head_rows k df =
     \<lparr>index = take k (index df), columns = map (\<lambda>(name, c). (name, head_col k c)) (columns df)\<rparr>"

text \<open>Sample inputs: a store that holds one frame, and three frames.\<close>

definition store_of :: "dataframe \<Rightarrow> heap" where
  "store_of df = (\<lambda>r. df)"

definition single_row_frame :: dataframe where
  "single_row_frame =
     \<lparr>index = [0],
      columns = [(''Net_Liquidity'', FloatCol [Finite 100]), (''BTC_Price'', FloatCol [Finite 50])]\<rparr>"

text \<open>35 rows, liquidity constant at 100, price rising by 1 a day from 50.\<close>

definition flat_frame :: dataframe where
  "flat_frame =
     \<lparr>index = map int [0..<35],
      columns = [(''Net_Liquidity'', FloatCol (replicate 35 (Finite 100))),
                 (''BTC_Price'', FloatCol (map (\<lambda>i. Finite (50 + real i)) [0..<35]))]\<rparr>"

text \<open>40 rows, both series rising in lockstep, price twice the liquidity.\<close>

definition lockstep_frame :: dataframe where
  "lockstep_frame =
     \<lparr>index = map int [0..<40],
      columns = [(''Net_Liquidity'', FloatCol (map (\<lambda>i. Finite (real i)) [0..<40])),
                 (''BTC_Price'', FloatCol (map (\<lambda>i. Finite (2 * real i)) [0..<40]))]\<rparr>"

section \<open>Running the engine on a well-formed input\<close>

lemma collect_cong_Inr:
  "(\<And>i. i \<in> set is \<Longrightarrow> g i = Inr (f i)) \<Longrightarrow> collect (map g is) = Inr (map f is)"
  by (induction "is") simp_all

lemma length_roll_mean [simp]: "length (roll_mean w xs) = length xs"
  by (simp add: roll_mean_def)

lemma length_roll_corr [simp]: "length (roll_corr w xs ys) = length xs"
  by (simp add: roll_corr_def)

lemma float_col_SomeD: "float_col df name = Some xs \<Longrightarrow> map_of (columns df) name = Some (FloatCol xs)"
  by (auto simp: float_col_def split: option.splits column.splits)

lemma wf_frame_len:
  "wf_frame df \<Longrightarrow> map_of (columns df) name = Some c \<Longrightarrow> col_len c = length (index df)"
  by (auto simp: wf_frame_def list_all_iff dest!: map_of_SomeD)

lemma calculate_signal_valid:
  assumes wf: "wf_frame (h r)"
    and liq: "float_col (h r) ''Net_Liquidity'' = Some liq"
    and btc: "float_col (h r) ''BTC_Price'' = Some btc"
  shows "calculate_signal r h =
           (Inr r, h(r := (h r)\<lparr>columns := engine_columns liq btc (columns (h r))\<rparr>))"
proof -
  have ml: "map_of (columns (h r)) ''Net_Liquidity'' = Some (FloatCol liq)"
    using liq by (rule float_col_SomeD)
  have mb: "map_of (columns (h r)) ''BTC_Price'' = Some (FloatCol btc)"
    using btc by (rule float_col_SomeD)
  have ll: "length liq = length (index (h r))" using wf_frame_len[OF wf ml] by simp
  have lb: "length btc = length (index (h r))" using wf_frame_len[OF wf mb] by simp
  let ?df3 = "(h r)\<lparr>columns := AList.update ''Correlation'' (FloatCol (roll_corr 30 liq btc))
         (AList.update ''BTC_SMA_20'' (FloatCol (roll_mean 20 btc))
           (AList.update ''Liq_SMA_20'' (FloatCol (roll_mean 20 liq)) (columns (h r))))\<rparr>"
  have rows: "apply_get_status ?df3 = Inr (status_column liq btc)"
    unfolding apply_get_status_def status_column_def
    using ll lb ml mb
    by (simp add: ll [symmetric] row_at_def field_at_def bind_result_def update_conv' collect_cong_Inr)
  show ?thesis
    unfolding calculate_signal_def
    using ml mb rows
    by (simp add: getitem_def bind_result_def setitem_def update_conv' engine_columns_def Let_def)
qed

section \<open>Covariance, variance and the Cauchy-Schwarz inequality\<close>

lemma cs_step:
  fixes a b S A B :: real
  assumes S: "S\<^sup>2 \<le> A * B" and A: "0 \<le> A" and B: "0 \<le> B"
  shows "(a * b + S)\<^sup>2 \<le> (a\<^sup>2 + A) * (b\<^sup>2 + B)"
proof -
  let ?u = "a\<^sup>2 * B" and ?v = "b\<^sup>2 * A"
  have uv: "0 \<le> ?u + ?v" using A B by simp
  have "(2 * a * b * S)\<^sup>2 = 4 * (a\<^sup>2 * b\<^sup>2) * S\<^sup>2" by (simp add: power2_eq_square)
  also have "\<dots> \<le> 4 * (a\<^sup>2 * b\<^sup>2) * (A * B)"
    using S by (intro mult_left_mono) simp_all
  also have "\<dots> = 4 * ?u * ?v" by simp
  also have "\<dots> \<le> (?u + ?v)\<^sup>2"
  proof -
    have "0 \<le> (?u - ?v)\<^sup>2" by simp
    then show ?thesis by (simp add: power2_eq_square algebra_simps)
  qed
  finally have "2 * a * b * S \<le> ?u + ?v" using uv by (rule power2_le_imp_le)
  moreover have "(a * b + S)\<^sup>2 = a\<^sup>2 * b\<^sup>2 + 2 * a * b * S + S\<^sup>2"
    by (simp add: power2_eq_square algebra_simps)
  moreover have "(a\<^sup>2 + A) * (b\<^sup>2 + B) = a\<^sup>2 * b\<^sup>2 + (?u + ?v) + A * B"
    by (simp add: algebra_simps)
  ultimately show ?thesis using S by linarith
qed

lemma sum_squares_nonneg: "0 \<le> (\<Sum>p\<leftarrow>ps. (f p :: real)\<^sup>2)"
  by (rule sum_list_nonneg) auto

lemma cauchy_schwarz_list:
  fixes f g :: "'a \<Rightarrow> real"
  shows "(\<Sum>p\<leftarrow>ps. f p * g p)\<^sup>2 \<le> (\<Sum>p\<leftarrow>ps. (f p)\<^sup>2) * (\<Sum>p\<leftarrow>ps. (g p)\<^sup>2)"
proof (induction ps)
  case Nil
  show ?case by simp
next
  case (Cons p ps)
  show ?case using cs_step[OF Cons.IH sum_squares_nonneg sum_squares_nonneg, of "f p" "g p"]
    by simp
qed

lemma sum_centered_products:
  fixes a b :: real
  shows "(\<Sum>(x, y)\<leftarrow>ps. (x - a) * (y - b)) =
         (\<Sum>(x, y)\<leftarrow>ps. x * y) - a * sum_list (map snd ps) - b * sum_list (map fst ps)
           + real (length ps) * a * b"
  by (induction ps) (auto simp: algebra_simps)

lemma sum_zip_fst:
  "length xs = length ys \<Longrightarrow> (\<Sum>(x, y)\<leftarrow>zip xs ys. f x) = (\<Sum>x\<leftarrow>xs. f x)"
  by (induction xs ys rule: list_induct2) simp_all

lemma sum_zip_snd:
  "length xs = length ys \<Longrightarrow> (\<Sum>(x, y)\<leftarrow>zip xs ys. f y) = (\<Sum>y\<leftarrow>ys. f y)"
  by (induction xs ys rule: list_induct2) simp_all

lemma numerator_is_covariance:
  assumes len: "length xs = length ys" and n: "2 \<le> length xs"
  shows "(mean (map2 (*) xs ys) - mean xs * mean ys)
           * (real (length xs) / (real (length xs) - 1)) = covariance xs ys"
proof -
  let ?n = "real (length xs)"
  have n0: "?n \<noteq> 0" and n1: "?n - 1 \<noteq> 0" using n by auto
  have fst: "map fst (zip xs ys) = xs" and snd: "map snd (zip xs ys) = ys"
    using len by simp_all
  have sx: "sum_list xs = ?n * mean xs" and sy: "sum_list ys = ?n * mean ys"
    using n0 len by (simp_all add: mean_def)
  have "(\<Sum>(x, y)\<leftarrow>zip xs ys. (x - mean xs) * (y - mean ys)) =
        (\<Sum>(x, y)\<leftarrow>zip xs ys. x * y) - ?n * mean xs * mean ys"
    unfolding sum_centered_products fst snd sx sy using len by (simp add: algebra_simps)
  moreover have "mean (map2 (*) xs ys) = (\<Sum>(x, y)\<leftarrow>zip xs ys. x * y) / ?n"
    using len by (simp add: mean_def)
  ultimately show ?thesis
    using n0 n1 by (simp add: covariance_def field_simps)
qed

lemma var_nonneg: "2 \<le> length xs \<Longrightarrow> 0 \<le> var xs"
  unfolding var_def by (intro divide_nonneg_nonneg sum_squares_nonneg) simp

lemma covariance_square_le:
  assumes len: "length xs = length ys" and n: "2 \<le> length xs"
  shows "(covariance xs ys)\<^sup>2 \<le> var xs * var ys"
proof -
  let ?d = "real (length xs) - 1"
  have d: "0 < ?d" using n by simp
  have sq: "(\<Sum>p\<leftarrow>zip xs ys. (fst p - mean xs)\<^sup>2) = var xs * ?d"
       "(\<Sum>p\<leftarrow>zip xs ys. (snd p - mean ys)\<^sup>2) = var ys * ?d"
    using d len sum_zip_fst[OF len, of "\<lambda>x. (x - mean xs)\<^sup>2"]
      sum_zip_snd[OF len, of "\<lambda>y. (y - mean ys)\<^sup>2"]
    by (simp_all add: var_def case_prod_unfold)
  have "(\<Sum>p\<leftarrow>zip xs ys. (fst p - mean xs) * (snd p - mean ys))\<^sup>2
          \<le> (var xs * ?d) * (var ys * ?d)"
    using cauchy_schwarz_list[of "\<lambda>p. fst p - mean xs" "\<lambda>p. snd p - mean ys" "zip xs ys"]
    unfolding sq .
  moreover have "(\<Sum>p\<leftarrow>zip xs ys. (fst p - mean xs) * (snd p - mean ys)) = covariance xs ys * ?d"
    using d by (simp add: covariance_def case_prod_unfold)
  ultimately have "(covariance xs ys * ?d)\<^sup>2 \<le> (var xs * ?d) * (var ys * ?d)" by simp
  then have "(covariance xs ys)\<^sup>2 * ?d\<^sup>2 \<le> (var xs * var ys) * ?d\<^sup>2"
    by (simp add: power2_eq_square algebra_simps)
  then show ?thesis using d by (simp add: mult_le_cancel_right)
qed

lemma covariance_abs_le:
  assumes len: "length xs = length ys" and n: "2 \<le> length xs"
  shows "\<bar>covariance xs ys\<bar> \<le> sqrt (var xs) * sqrt (var ys)"
proof -
  have "sqrt ((covariance xs ys)\<^sup>2) \<le> sqrt (var xs * var ys)"
    by (rule real_sqrt_le_mono[OF covariance_square_le[OF len n]])
  then show ?thesis by (simp add: real_sqrt_mult)
qed

lemma fdiv_is_pearson:
  assumes len: "length xs = length ys" and n: "2 \<le> length xs"
  shows "fdiv ((mean (map2 (*) xs ys) - mean xs * mean ys)
                 * (real (length xs) / (real (length xs) - 1)))
              (sqrt (var xs * var ys)) = pearson xs ys"
proof (cases "var xs = 0 \<or> var ys = 0")
  case True
  then have "sqrt (var xs) * sqrt (var ys) = 0" by auto
  with covariance_abs_le[OF len n] have "covariance xs ys = 0" by simp
  with True show ?thesis
    unfolding numerator_is_covariance[OF len n] by (auto simp: fdiv_def pearson_def)
next
  case False
  then show ?thesis
    unfolding numerator_is_covariance[OF len n]
    by (simp add: fdiv_def pearson_def real_sqrt_mult)
qed

section \<open>Windows and rolling statistics\<close>

lemma window_at_nth:
  "i < length xs \<Longrightarrow> window_at w xs i = map ((!) xs) [Suc i - w..<Suc i]"
  unfolding window_at_def by (rule nth_equalityI) (auto simp del: upt_Suc)

lemma length_window_at: "i < length xs \<Longrightarrow> length (window_at w xs i) = Suc i - (Suc i - w)"
  by (simp add: window_at_nth del: upt_Suc)

lemma length_observations: "length (observations win) \<le> length win"
  by (induction win rule: observations.induct) simp_all

lemma observations_Finite: "observations (map (\<lambda>j. Finite (x j)) js) = map x js"
  by (induction js) simp_all

lemma window_short:
  assumes "i < length xs" "Suc i < w"
  shows "length (observations (window_at w xs i)) < w"
proof -
  have "length (window_at w xs i) < w" using assms by (simp add: length_window_at)
  with length_observations[of "window_at w xs i"] show ?thesis by linarith
qed

lemma roll_mean_nth:
  "i < length xs \<Longrightarrow> roll_mean w xs ! i = mean_window w (window_at w xs i)"
  by (simp add: roll_mean_def)

lemma roll_corr_nth:
  "i < length xs \<Longrightarrow> roll_corr w xs ys ! i = corr_window w (window_at w xs i) (window_at w ys i)"
  by (simp add: roll_corr_def)

lemma roll_mean_warmup:
  "i < length xs \<Longrightarrow> Suc i < w \<Longrightarrow> roll_mean w xs ! i = NaN"
  by (simp add: roll_mean_nth mean_window_def window_short)


lemma window_at_finite:
  assumes i: "i < length xs" and fin: "\<forall>j\<in>{Suc i - w..i}. xs ! j = Finite (x j)"
  shows "window_at w xs i = map (\<lambda>j. Finite (x j)) [Suc i - w..<Suc i]"
  using fin by (simp add: window_at_nth[OF i] atLeastLessThanSuc_atLeastAtMost del: upt_Suc)

lemma roll_mean_full:
  assumes i: "i < length xs" and w: "0 < w" "w \<le> Suc i"
    and fin: "\<forall>j\<in>{Suc i - w..i}. xs ! j = Finite (x j)"
  shows "roll_mean w xs ! i = Finite ((\<Sum>j = Suc i - w..i. x j) / real w)"
proof -
  have "sum_list (map x [Suc i - w..<Suc i]) = (\<Sum>j = Suc i - w..i. x j)"
    by (simp add: interv_sum_list_conv_sum_set_nat atLeastLessThanSuc_atLeastAtMost del: upt_Suc)
  moreover have "length [Suc i - w..<Suc i] = w" using w by simp
  ultimately show ?thesis
    using w by (simp add: roll_mean_nth[OF i] window_at_finite[OF i fin] mean_window_def
        observations_Finite mean_def del: upt_Suc)
qed

lemma roll_corr_full:
  assumes i: "i < length xs" "i < length ys" and w: "2 \<le> w" "w \<le> Suc i"
    and fx: "\<forall>j\<in>{Suc i - w..i}. xs ! j = Finite (x j)"
    and fy: "\<forall>j\<in>{Suc i - w..i}. ys ! j = Finite (y j)"
  shows "roll_corr w xs ys ! i =
           pearson (map x [Suc i - w..<Suc i]) (map y [Suc i - w..<Suc i])"
proof -
  have len: "length [Suc i - w..<Suc i] = w" using w by simp
  show ?thesis
    using w fdiv_is_pearson[of "map x [Suc i - w..<Suc i]" "map y [Suc i - w..<Suc i]"]
    by (simp add: roll_corr_nth[OF i(1)] window_at_finite[OF i(1) fx] window_at_finite[OF i(2) fy]
        corr_window_def observations_Finite Let_def del: upt_Suc)
qed

lemma fgt_NaN_left [simp]: "fgt NaN a = False"
  by (cases a) simp_all

lemma status_column_nth:
  "i < length liq \<Longrightarrow> status_column liq btc ! i =
     get_status \<lparr>Net_Liquidity = liq ! i, Liq_SMA_20 = roll_mean 20 liq ! i,
                 BTC_Price = btc ! i, BTC_SMA_20 = roll_mean 20 btc ! i,
                 Correlation = roll_corr 30 liq btc ! i\<rparr>"
  by (simp add: status_column_def)

lemma length_status_column [simp]: "length (status_column liq btc) = length liq"
  by (simp add: status_column_def)

section \<open>Lemmas about the engine\<close>

lemma engine_columns_map_of:
  "map_of (engine_columns liq btc cs) =
     (map_of cs)(''Liq_SMA_20'' \<mapsto> FloatCol (roll_mean 20 liq),
                 ''BTC_SMA_20'' \<mapsto> FloatCol (roll_mean 20 btc),
                 ''Correlation'' \<mapsto> FloatCol (roll_corr 30 liq btc),
                 ''Signal'' \<mapsto> LabelCol (status_column liq btc))"
  by (simp add: engine_columns_def update_conv')

lemma run_valid:
  assumes wf: "wf_frame (h r)"
    and liq: "float_col (h r) ''Net_Liquidity'' = Some liq"
    and btc: "float_col (h r) ''BTC_Price'' = Some btc"
    and run: "calculate_signal r h = (res, h')"
  shows "res = Inr r"
    and "h' = h(r := (h r)\<lparr>columns := engine_columns liq btc (columns (h r))\<rparr>)"
  using run calculate_signal_valid[where h=h and r=r, OF wf liq btc] by simp_all

lemma input_lengths:
  assumes wf: "wf_frame df"
    and liq: "float_col df ''Net_Liquidity'' = Some liq"
    and btc: "float_col df ''BTC_Price'' = Some btc"
  shows "length liq = length (index df)" and "length btc = length (index df)"
  using wf_frame_len[OF wf float_col_SomeD[OF liq]] wf_frame_len[OF wf float_col_SomeD[OF btc]]
  by simp_all

lemma output_columns:
  assumes liq: "float_col df ''Net_Liquidity'' = Some liq"
    and btc: "float_col df ''BTC_Price'' = Some btc"
  defines "out \<equiv> df\<lparr>columns := engine_columns liq btc (columns df)\<rparr>"
  shows "float_col out ''Net_Liquidity'' = Some liq"
    and "float_col out ''BTC_Price'' = Some btc"
    and "float_col out ''Liq_SMA_20'' = Some (roll_mean 20 liq)"
    and "float_col out ''BTC_SMA_20'' = Some (roll_mean 20 btc)"
    and "float_col out ''Correlation'' = Some (roll_corr 30 liq btc)"
    and "label_col out ''Signal'' = Some (status_column liq btc)"
    and "index out = index df"
  using float_col_SomeD[OF liq] float_col_SomeD[OF btc]
  by (simp_all add: out_def float_col_def label_col_def engine_columns_map_of)








lemma store_of_apply [simp]: "store_of df r = df"
  by (simp add: store_of_def)

lemma run_pair: "calculate_signal r h = (fst (calculate_signal r h), snd (calculate_signal r h))"
  by simp

lemma single_row_frame_facts:
  "wf_frame single_row_frame"
  "float_col single_row_frame ''Net_Liquidity'' = Some [Finite 100]"
  "float_col single_row_frame ''BTC_Price'' = Some [Finite 50]"
  "length (index single_row_frame) = 1"
  by (simp_all add: single_row_frame_def wf_frame_def float_col_def)

lemma flat_frame_facts:
  "wf_frame flat_frame"
  "float_col flat_frame ''Net_Liquidity'' = Some (replicate 35 (Finite 100))"
  "float_col flat_frame ''BTC_Price'' = Some (map (\<lambda>i. Finite (50 + real i)) [0..<35])"
  "length (index flat_frame) = 35"
  by (simp_all add: flat_frame_def wf_frame_def float_col_def)

lemma lockstep_frame_facts:
  "wf_frame lockstep_frame"
  "float_col lockstep_frame ''Net_Liquidity'' = Some (map (\<lambda>i. Finite (real i)) [0..<40])"
  "float_col lockstep_frame ''BTC_Price'' = Some (map (\<lambda>i. Finite (2 * real i)) [0..<40])"
  "length (index lockstep_frame) = 40"
  by (simp_all add: lockstep_frame_def wf_frame_def float_col_def)

lemma engine_columns_names:
  "fst ` set (engine_columns liq btc cs) =
     fst ` set cs \<union> {''Liq_SMA_20'', ''BTC_SMA_20'', ''Correlation'', ''Signal''}"
  by (auto simp: engine_columns_def dom_update)

lemma engine_columns_distinct:
  "distinct (map fst cs) \<Longrightarrow> distinct (map fst (engine_columns liq btc cs))"
  by (simp add: engine_columns_def distinct_update)

lemma engine_columns_other:
  "name \<notin> {''Liq_SMA_20'', ''BTC_SMA_20'', ''Correlation'', ''Signal''} \<Longrightarrow>
     map_of (engine_columns liq btc cs) name = map_of cs name"
  by (simp add: engine_columns_map_of)

lemma list_all_update:
  "list_all P al \<Longrightarrow> P (k, v) \<Longrightarrow> list_all P (AList.update k v al)"
  by (induction al) auto

lemma update_fresh: "k \<notin> fst ` set al \<Longrightarrow> AList.update k v al = al @ [(k, v)]"
  by (induction al) auto

lemma engine_columns_fresh:
  assumes "''Liq_SMA_20'' \<notin> fst ` set cs" "''BTC_SMA_20'' \<notin> fst ` set cs"
    "''Correlation'' \<notin> fst ` set cs" "''Signal'' \<notin> fst ` set cs"
  shows "map fst (engine_columns liq btc cs) =
           map fst cs @ [''Liq_SMA_20'', ''BTC_SMA_20'', ''Correlation'', ''Signal'']"
  using assms by (simp add: engine_columns_def update_fresh dom_update)

lemma engine_columns_wf:
  assumes wf: "wf_frame df"
    and ll: "length liq = length (index df)" and lb: "length btc = length (index df)"
  shows "wf_frame (df\<lparr>columns := engine_columns liq btc (columns df)\<rparr>)"
proof -
  have "list_all (\<lambda>(name, c). col_len c = length (index df)) (engine_columns liq btc (columns df))"
    unfolding engine_columns_def using wf ll lb
    by (intro list_all_update) (simp_all add: wf_frame_def)
  with wf show ?thesis by (simp add: wf_frame_def engine_columns_distinct)
qed

lemma engine_columns_idem:
  "engine_columns liq btc (engine_columns liq btc cs) = engine_columns liq btc cs"
  by (subst engine_columns_def) (simp add: update_triv engine_columns_map_of)

lemma window_at_take: "Suc i \<le> k \<Longrightarrow> window_at w (take k xs) i = window_at w xs i"
  by (simp add: window_at_def min_absorb1)

lemma take_roll_mean: "roll_mean w (take k xs) = take k (roll_mean w xs)"
  by (simp add: roll_mean_def take_map window_at_take min_def)

lemma take_roll_corr: "roll_corr w (take k xs) (take k ys) = take k (roll_corr w xs ys)"
  by (simp add: roll_corr_def take_map window_at_take min_def)

lemma take_status_column:
  "status_column (take k liq) (take k btc) = take k (status_column liq btc)"
  by (simp add: status_column_def take_map take_roll_mean take_roll_corr min_def)

lemma update_map_values:
  "AList.update n (f c) (map (\<lambda>(a, b). (a, f b)) al) = map (\<lambda>(a, b). (a, f b)) (AList.update n c al)"
  by (induction al) auto

lemma engine_columns_head:
  "engine_columns (take k liq) (take k btc) (map (\<lambda>(name, c). (name, head_col k c)) cs) =
     map (\<lambda>(name, c). (name, head_col k c)) (engine_columns liq btc cs)"
  unfolding engine_columns_def take_roll_mean take_roll_corr take_status_column
  by (simp add: update_map_values[where f="head_col k", symmetric])

lemma map_of_head:
  "map_of (map (\<lambda>(name, c). (name, head_col k c)) cs) name = map_option (head_col k) (map_of cs name)"
  by (induction cs) auto

lemma float_col_head:
  "float_col df name = Some xs \<Longrightarrow> float_col (head_rows k df) name = Some (take k xs)"
  by (auto simp: float_col_def head_rows_def map_of_head split: option.splits column.splits)

lemma col_len_head: "col_len (head_col k c) = min k (col_len c)"
  by (cases c) simp_all

lemma wf_frame_head: "wf_frame df \<Longrightarrow> wf_frame (head_rows k df)"
  by (auto simp: wf_frame_def head_rows_def list_all_iff col_len_head comp_def case_prod_unfold)

section \<open>Scaled series and the lockstep sample\<close>

lemma var_zero_constant:
  assumes n: "2 \<le> length xs" and v: "var xs = 0"
  shows "\<forall>x\<in>set xs. x = mean xs"
proof -
  have "(\<Sum>x\<leftarrow>xs. (x - mean xs)\<^sup>2) = 0" using n v by (simp add: var_def)
  then have "\<forall>s\<in>set (map (\<lambda>x. (x - mean xs)\<^sup>2) xs). s = 0"
    by (subst (asm) sum_list_nonneg_eq_0_iff) auto
  then show ?thesis by simp
qed

lemma var_nonzero:
  assumes n: "2 \<le> length xs" and a: "a \<in> set xs" and b: "b \<in> set xs" and ab: "a \<noteq> b"
  shows "var xs \<noteq> 0"
  using var_zero_constant[OF n] a b ab by metis

lemma mean_scaled: "mean (map ((*) k) xs) = k * mean xs"
  by (simp add: mean_def sum_list_const_mult)

lemma var_scaled: "var (map ((*) k) xs) = k\<^sup>2 * var xs"
proof -
  have "(\<Sum>x\<leftarrow>xs. (k * x - k * mean xs)\<^sup>2) = k\<^sup>2 * (\<Sum>x\<leftarrow>xs. (x - mean xs)\<^sup>2)"
    by (simp add: sum_list_const_mult [symmetric] power_mult_distrib [symmetric] right_diff_distrib)
  then show ?thesis by (simp add: var_def mean_scaled comp_def)
qed

lemma covariance_scaled: "covariance xs (map ((*) k) xs) = k * var xs"
proof -
  have "zip xs (map ((*) k) xs) = map (\<lambda>x. (x, k * x)) xs"
    by (induction xs) simp_all
  moreover have "(\<Sum>x\<leftarrow>xs. (x - mean xs) * (k * x - k * mean xs)) = k * (\<Sum>x\<leftarrow>xs. (x - mean xs)\<^sup>2)"
    by (simp add: sum_list_const_mult [symmetric] power2_eq_square algebra_simps)
  ultimately show ?thesis by (simp add: covariance_def var_def mean_scaled comp_def)
qed

lemma pearson_scaled:
  assumes n: "2 \<le> length xs" and nz: "var xs \<noteq> 0" and k: "0 < k"
  shows "pearson xs (map ((*) k) xs) = Finite 1"
proof -
  have pos: "0 < var xs" using var_nonneg[OF n] nz by simp
  have "sqrt (k\<^sup>2 * var xs) = k * sqrt (var xs)" using k by (simp add: real_sqrt_mult)
  then have "sqrt (var xs) * sqrt (var (map ((*) k) xs)) = k * var xs"
    using pos by (simp add: var_scaled)
  moreover have "var (map ((*) k) xs) \<noteq> 0" using nz k by (simp add: var_scaled)
  ultimately show ?thesis using nz k by (simp add: pearson_def covariance_scaled)
qed

lemma lockstep_window_pearson:
  assumes "a + 2 \<le> b"
  shows "pearson (map real [a..<b]) (map (\<lambda>j. 2 * real j) [a..<b]) = Finite 1"
proof -
  have "a \<in> set [a..<b]" "Suc a \<in> set [a..<b]" using assms by simp_all
  then have "real a \<in> set (map real [a..<b])" "real (Suc a) \<in> set (map real [a..<b])"
    unfolding set_map by (blast intro: imageI)+
  then have "var (map real [a..<b]) \<noteq> 0"
    using assms by (intro var_nonzero[of _ "real a" "real (Suc a)"]) simp_all
  then have "pearson (map real [a..<b]) (map ((*) 2) (map real [a..<b])) = Finite 1"
    using assms by (intro pearson_scaled) simp_all
  then show ?thesis by (simp add: comp_def)
qed

lemma lockstep_output:
  "float_col (snd (calculate_signal 0 (store_of lockstep_frame)) 0) ''Liq_SMA_20'' =
     Some (roll_mean 20 (map (\<lambda>i. Finite (real i)) [0..<40]))"
  "float_col (snd (calculate_signal 0 (store_of lockstep_frame)) 0) ''BTC_SMA_20'' =
     Some (roll_mean 20 (map (\<lambda>i. Finite (2 * real i)) [0..<40]))"
  "float_col (snd (calculate_signal 0 (store_of lockstep_frame)) 0) ''Correlation'' =
     Some (roll_corr 30 (map (\<lambda>i. Finite (real i)) [0..<40]) (map (\<lambda>i. Finite (2 * real i)) [0..<40]))"
  using output_columns[OF lockstep_frame_facts(2,3)]
  by (simp_all add: calculate_signal_valid[where h="store_of lockstep_frame" and r=0, simplified,
        OF lockstep_frame_facts(1-3)] del: upt_Suc)

lemma lockstep_row_39:
  "roll_mean 20 (map (\<lambda>i. Finite (real i)) [0..<40]) ! 39 = Finite ((\<Sum>j = 20..39. real j) / 20)"
  "roll_mean 20 (map (\<lambda>i. Finite (2 * real i)) [0..<40]) ! 39 = Finite ((\<Sum>j = 20..39. 2 * real j) / 20)"
  "roll_corr 30 (map (\<lambda>i. Finite (real i)) [0..<40]) (map (\<lambda>i. Finite (2 * real i)) [0..<40]) ! 39 = Finite 1"
proof -
  show "roll_mean 20 (map (\<lambda>i. Finite (real i)) [0..<40]) ! 39 = Finite ((\<Sum>j = 20..39. real j) / 20)"
    using roll_mean_full[of 39 "map (\<lambda>i. Finite (real i)) [0..<40]" 20 real]
    by (simp del: upt_Suc)
  show "roll_mean 20 (map (\<lambda>i. Finite (2 * real i)) [0..<40]) ! 39 = Finite ((\<Sum>j = 20..39. 2 * real j) / 20)"
    using roll_mean_full[of 39 "map (\<lambda>i. Finite (2 * real i)) [0..<40]" 20 "\<lambda>j. 2 * real j"]
    by (simp del: upt_Suc)
  have p: "pearson (map real [10..<40]) (map (\<lambda>j. 2 * real j) [10..<40]) = Finite 1"
    by (rule lockstep_window_pearson) simp
  have "roll_corr 30 (map (\<lambda>i. Finite (real i)) [0..<40]) (map (\<lambda>i. Finite (2 * real i)) [0..<40]) ! 39 =
        pearson (map real [10..<40]) (map (\<lambda>j. 2 * real j) [10..<40])"
    using roll_corr_full[of 39 "map (\<lambda>i. Finite (real i)) [0..<40]" "map (\<lambda>i. Finite (2 * real i)) [0..<40]"
        30 real "\<lambda>j. 2 * real j"]
    by (simp del: upt_Suc)
  then show "roll_corr 30 (map (\<lambda>i. Finite (real i)) [0..<40]) (map (\<lambda>i. Finite (2 * real i)) [0..<40]) ! 39 = Finite 1"
    using p by (rule trans)
qed

section \<open>The priority chain\<close>

text \<open>
  C1: Every row of the output carries the label of the four-branch priority chain read
  on the output's own fields: STRONG LONG when liquidity is above its 20-row average, the
  price is above its 20-row average and the correlation is above 0.5; otherwise DIVERGENCE
  when liquidity is not above and the price is; otherwise BUY OPPORTUNITY when liquidity is
  above and the price is not; otherwise NEUTRAL.
\<close>

theorem signal_column_priority_chain:
  assumes wf: "wf_frame (h r)"
    and liq: "float_col (h r) ''Net_Liquidity'' = Some liq"
    and btc: "float_col (h r) ''BTC_Price'' = Some btc"
    and run: "calculate_signal r h = (res, h')"
  shows "\<exists>sl sb co sig.
           float_col (h' r) ''Net_Liquidity'' = Some liq \<and>
           float_col (h' r) ''BTC_Price'' = Some btc \<and>
           float_col (h' r) ''Liq_SMA_20'' = Some sl \<and>
           float_col (h' r) ''BTC_SMA_20'' = Some sb \<and>
           float_col (h' r) ''Correlation'' = Some co \<and>
           label_col (h' r) ''Signal'' = Some sig \<and>
           length sig = length (index (h' r)) \<and>
           (\<forall>i<length sig.
              sig ! i =
                (if fgt (liq ! i) (sl ! i) \<and> fgt (btc ! i) (sb ! i) \<and> fgt (co ! i) (Finite 0.5)
                 then STRONG_LONG
                 else if \<not> fgt (liq ! i) (sl ! i) \<and> fgt (btc ! i) (sb ! i) then DIVERGENCE
                 else if fgt (liq ! i) (sl ! i) \<and> \<not> fgt (btc ! i) (sb ! i) then BUY_OPPORTUNITY
                 else NEUTRAL))"
  unfolding run_valid(2)[where h=h and r=r, OF wf liq btc run]
  using input_lengths[OF wf liq btc]
  by (simp add: output_columns[OF liq btc] status_column_nth get_status_def Let_def)

text \<open>The last row of the 40-row lockstep frame is labelled STRONG LONG.\<close>

theorem signal_column_priority_chain_witness:
  "wf_frame (store_of lockstep_frame 0) \<and>
   (\<exists>sig.
      label_col (snd (calculate_signal 0 (store_of lockstep_frame)) 0) ''Signal'' = Some sig \<and>
      length sig = 40 \<and> sig ! 39 = STRONG_LONG)"
proof -
  let ?h = "store_of lockstep_frame"
  let ?liq = "map (\<lambda>i. Finite (real i)) [0..<40]" and ?btc = "map (\<lambda>i. Finite (2 * real i)) [0..<40]"
  have wf: "wf_frame (?h 0)" and liq: "float_col (?h 0) ''Net_Liquidity'' = Some ?liq"
    and btc: "float_col (?h 0) ''BTC_Price'' = Some ?btc"
    by (simp_all add: lockstep_frame_facts)
  from signal_column_priority_chain[where h="?h" and r=0, OF wf liq btc run_pair]
  obtain sl sb co sig where
    cols: "float_col (snd (calculate_signal 0 ?h) 0) ''Liq_SMA_20'' = Some sl"
      "float_col (snd (calculate_signal 0 ?h) 0) ''BTC_SMA_20'' = Some sb"
      "float_col (snd (calculate_signal 0 ?h) 0) ''Correlation'' = Some co"
    and lab: "label_col (snd (calculate_signal 0 ?h) 0) ''Signal'' = Some sig"
    and len: "length sig = length (index (snd (calculate_signal 0 ?h) 0))"
    and chain: "\<forall>i<length sig.
              sig ! i =
                (if fgt (?liq ! i) (sl ! i) \<and> fgt (?btc ! i) (sb ! i) \<and> fgt (co ! i) (Finite 0.5)
                 then STRONG_LONG
                 else if \<not> fgt (?liq ! i) (sl ! i) \<and> fgt (?btc ! i) (sb ! i) then DIVERGENCE
                 else if fgt (?liq ! i) (sl ! i) \<and> \<not> fgt (?btc ! i) (sb ! i) then BUY_OPPORTUNITY
                 else NEUTRAL)"
    by blast
  have "index (snd (calculate_signal 0 ?h) 0) = index lockstep_frame"
    using run_valid(2)[where h="?h" and r=0, OF wf liq btc run_pair] output_columns(7)[OF liq btc]
    by simp
  with len have l40: "length sig = 40" by (simp add: lockstep_frame_facts)
  have sl: "sl ! 39 = Finite ((\<Sum>j = 20..39. real j) / 20)"
    and sb: "sb ! 39 = Finite ((\<Sum>j = 20..39. 2 * real j) / 20)"
    and co: "co ! 39 = Finite 1"
    using cols lockstep_output lockstep_row_39 by simp_all
  have up: "fgt (?liq ! 39) (sl ! 39)" "fgt (?btc ! 39) (sb ! 39)" "fgt (co ! 39) (Finite 0.5)"
    unfolding sl sb co by (simp_all add: sum.atLeast_Suc_atMost del: upt_Suc)
  from chain l40 have "sig ! 39 =
                (if fgt (?liq ! 39) (sl ! 39) \<and> fgt (?btc ! 39) (sb ! 39) \<and> fgt (co ! 39) (Finite 0.5)
                 then STRONG_LONG
                 else if \<not> fgt (?liq ! 39) (sl ! 39) \<and> fgt (?btc ! 39) (sb ! 39) then DIVERGENCE
                 else if fgt (?liq ! 39) (sl ! 39) \<and> \<not> fgt (?btc ! 39) (sb ! 39) then BUY_OPPORTUNITY
                 else NEUTRAL)"
    by simp
  with up have "sig ! 39 = STRONG_LONG" by simp
  with wf lab l40 show ?thesis by blast
qed

section \<open>Totality\<close>

text \<open>
  C4: On a well-formed frame that carries the two input columns the engine raises
  nothing and returns its argument, and the label column has one of the four labels for each
  row of the index; a frame of a single row is such an input.
\<close>

theorem calculate_signal_total:
  assumes valid: "valid_input (h r)"
  shows "\<exists>h' sig.
           calculate_signal r h = (Inr r, h') \<and>
           label_col (h' r) ''Signal'' = Some sig \<and>
           length sig = length (index (h r)) \<and>
           (\<forall>i<length sig. sig ! i \<in> {STRONG_LONG, DIVERGENCE, BUY_OPPORTUNITY, NEUTRAL})"
proof -
  from valid obtain liq btc where wf: "wf_frame (h r)"
    and liq: "float_col (h r) ''Net_Liquidity'' = Some liq"
    and btc: "float_col (h r) ''BTC_Price'' = Some btc"
    by (auto simp: valid_input_def)
  have all: "s = STRONG_LONG \<or> s = DIVERGENCE \<or> s = BUY_OPPORTUNITY \<or> s = NEUTRAL" for s
    by (cases s) simp_all
  show ?thesis
    unfolding calculate_signal_valid[where h=h and r=r, OF wf liq btc]
    using input_lengths[OF wf liq btc]
    by (simp add: output_columns[OF liq btc] all)
qed

text \<open>The single-row frame.\<close>

theorem calculate_signal_total_witness:
  "valid_input (store_of single_row_frame 0) \<and>
   (\<exists>h' sig. calculate_signal 0 (store_of single_row_frame) = (Inr 0, h') \<and>
      label_col (h' 0) ''Signal'' = Some sig \<and> length sig = 1 \<and>
      sig ! 0 \<in> {STRONG_LONG, DIVERGENCE, BUY_OPPORTUNITY, NEUTRAL})"
proof -
  have v: "valid_input (store_of single_row_frame 0)"
    by (simp add: valid_input_def single_row_frame_facts)
  from calculate_signal_total[where h="store_of single_row_frame" and r=0, OF v] show ?thesis
    using v by (fastforce simp: single_row_frame_facts)
qed

section \<open>Effect on the caller's object\<close>

text \<open>
  The engine is not free of side effects: on the single-row frame the object the caller
  passed has more columns after the call than before.
\<close>

theorem calculate_signal_adds_columns:
  "fst ` set (columns (snd (calculate_signal 0 (store_of single_row_frame)) 0))
     \<noteq> fst ` set (columns (store_of single_row_frame 0))"
proof -
  have "''Signal'' \<in> fst ` set (columns (snd (calculate_signal 0 (store_of single_row_frame)) 0))"
    unfolding calculate_signal_valid[where h="store_of single_row_frame" and r=0,
        simplified, OF single_row_frame_facts(1-3)]
    by (simp add: engine_columns_names)
  moreover have "''Signal'' \<notin> fst ` set (columns (store_of single_row_frame 0))"
    by (simp add: single_row_frame_def)
  ultimately show ?thesis by blast
qed

text \<open>
  C5, as the code has it: the engine returns the object it was given, changed in place.
  The date index and the two input columns of that object are as before, every other object
  of the store is as before, and the column names of the object are those it had together
  with the four derived names.
\<close>

theorem calculate_signal_frame:
  assumes wf: "wf_frame (h r)"
    and liq: "float_col (h r) ''Net_Liquidity'' = Some liq"
    and btc: "float_col (h r) ''BTC_Price'' = Some btc"
    and run: "calculate_signal r h = (res, h')"
  shows "res = Inr r \<and>
         (\<forall>q. q \<noteq> r \<longrightarrow> h' q = h q) \<and>
         index (h' r) = index (h r) \<and>
         float_col (h' r) ''Net_Liquidity'' = Some liq \<and>
         float_col (h' r) ''BTC_Price'' = Some btc \<and>
         fst ` set (columns (h' r)) =
           fst ` set (columns (h r)) \<union> {''Liq_SMA_20'', ''BTC_SMA_20'', ''Correlation'', ''Signal''}"
  unfolding run_valid[where h=h and r=r, OF wf liq btc run]
  by (simp add: output_columns[OF liq btc] engine_columns_names)

text \<open>The 40-row lockstep frame at reference 0; the object at reference 1 is untouched.\<close>

theorem calculate_signal_frame_witness:
  "wf_frame (store_of lockstep_frame 0) \<and>
   fst (calculate_signal 0 (store_of lockstep_frame)) = Inr 0 \<and>
   snd (calculate_signal 0 (store_of lockstep_frame)) 1 = store_of lockstep_frame 1 \<and>
   index (snd (calculate_signal 0 (store_of lockstep_frame)) 0) = index (store_of lockstep_frame 0) \<and>
   float_col (snd (calculate_signal 0 (store_of lockstep_frame)) 0) ''Net_Liquidity'' =
     Some (map (\<lambda>i. Finite (real i)) [0..<40]) \<and>
   float_col (snd (calculate_signal 0 (store_of lockstep_frame)) 0) ''BTC_Price'' =
     Some (map (\<lambda>i. Finite (2 * real i)) [0..<40]) \<and>
   ''Signal'' \<in> fst ` set (columns (snd (calculate_signal 0 (store_of lockstep_frame)) 0))"
proof -
  let ?h = "store_of lockstep_frame"
  have wf: "wf_frame (?h 0)"
    and liq: "float_col (?h 0) ''Net_Liquidity'' = Some (map (\<lambda>i. Finite (real i)) [0..<40])"
    and btc: "float_col (?h 0) ''BTC_Price'' = Some (map (\<lambda>i. Finite (2 * real i)) [0..<40])"
    by (simp_all add: lockstep_frame_facts)
  from calculate_signal_frame[where h="?h" and r=0, OF wf liq btc run_pair]
  show ?thesis using wf by (simp del: upt_Suc store_of_apply)
qed

section \<open>Undefined values and STRONG LONG\<close>



section \<open>No look-ahead\<close>

text \<open>
  C7: No look-ahead: running the engine on the first \<open>k\<close> rows of a frame gives
  exactly the first \<open>k\<close> rows of what it gives on the whole frame, derived columns
  included.
\<close>

theorem calculate_signal_no_look_ahead:
  assumes wf: "wf_frame (h r)"
    and liq: "float_col (h r) ''Net_Liquidity'' = Some liq"
    and btc: "float_col (h r) ''BTC_Price'' = Some btc"
    and run: "calculate_signal r h = (res, h')"
    and head: "g q = head_rows k (h r)"
    and run_head: "calculate_signal q g = (res_k, g')"
  shows "res_k = Inr q \<and> g' q = head_rows k (h' r)"
proof -
  have wf_k: "wf_frame (g q)" unfolding head using wf by (rule wf_frame_head)
  have liq_k: "float_col (g q) ''Net_Liquidity'' = Some (take k liq)"
    unfolding head using liq by (rule float_col_head)
  have btc_k: "float_col (g q) ''BTC_Price'' = Some (take k btc)"
    unfolding head using btc by (rule float_col_head)
  show ?thesis
    unfolding run_valid[where h=h and r=r, OF wf liq btc run]
      run_valid[where h=g and r=q, OF wf_k liq_k btc_k run_head]
    by (simp add: head head_rows_def engine_columns_head)
qed

text \<open>The first 30 rows of the 35-row frame.\<close>

theorem calculate_signal_no_look_ahead_witness:
  "wf_frame (store_of flat_frame 0) \<and>
   store_of (head_rows 30 flat_frame) 0 = head_rows 30 (store_of flat_frame 0) \<and>
   fst (calculate_signal 0 (store_of (head_rows 30 flat_frame))) = Inr 0 \<and>
   snd (calculate_signal 0 (store_of (head_rows 30 flat_frame))) 0 =
     head_rows 30 (snd (calculate_signal 0 (store_of flat_frame)) 0)"
proof -
  let ?h = "store_of flat_frame" and ?g = "store_of (head_rows 30 flat_frame)"
  have wf: "wf_frame (?h 0)"
    and liq: "float_col (?h 0) ''Net_Liquidity'' = Some (replicate 35 (Finite 100))"
    and btc: "float_col (?h 0) ''BTC_Price'' = Some (map (\<lambda>i. Finite (50 + real i)) [0..<35])"
    by (simp_all add: flat_frame_facts)
  have head: "?g 0 = head_rows 30 (?h 0)" by simp
  from calculate_signal_no_look_ahead[where h="?h" and r=0 and g="?g" and q=0, OF wf liq btc run_pair head run_pair]
  show ?thesis using wf head by simp
qed

section \<open>Idempotence\<close>

text \<open>
  C8: Idempotence: running the engine again on the object it has just returned
  changes nothing and returns the same result.
\<close>

theorem calculate_signal_idempotent:
  assumes wf: "wf_frame (h r)"
    and liq: "float_col (h r) ''Net_Liquidity'' = Some liq"
    and btc: "float_col (h r) ''BTC_Price'' = Some btc"
    and run: "calculate_signal r h = (res, h')"
  shows "calculate_signal r h' = (res, h')"
proof -
  note out = run_valid[where h=h and r=r, OF wf liq btc run]
  have wf': "wf_frame (h' r)"
    unfolding out using engine_columns_wf[OF wf input_lengths[OF wf liq btc]] by simp
  have liq': "float_col (h' r) ''Net_Liquidity'' = Some liq"
    and btc': "float_col (h' r) ''BTC_Price'' = Some btc"
    unfolding out by (simp_all add: output_columns[OF liq btc])
  show ?thesis
    unfolding calculate_signal_valid[where h=h' and r=r, OF wf' liq' btc']
    unfolding out by (simp add: engine_columns_idem)
qed

text \<open>A second run on the 40-row lockstep frame.\<close>

theorem calculate_signal_idempotent_witness:
  "wf_frame (store_of lockstep_frame 0) \<and>
   calculate_signal 0 (snd (calculate_signal 0 (store_of lockstep_frame))) =
     calculate_signal 0 (store_of lockstep_frame)"
proof -
  let ?h = "store_of lockstep_frame"
  have wf: "wf_frame (?h 0)"
    and liq: "float_col (?h 0) ''Net_Liquidity'' = Some (map (\<lambda>i. Finite (real i)) [0..<40])"
    and btc: "float_col (?h 0) ''BTC_Price'' = Some (map (\<lambda>i. Finite (2 * real i)) [0..<40])"
    by (simp_all add: lockstep_frame_facts)
  from calculate_signal_idempotent[where h="?h" and r=0, OF wf liq btc run_pair]
  show ?thesis using wf by simp
qed

section \<open>Shape of the output\<close>

text \<open>
  C9: The output has the index of the input, every column as long as the index, the
  columns of the input under their names with their contents, and the four derived columns;
  when the input has none of the four names they are appended in the order of the
  assignments.
\<close>

theorem calculate_signal_output_shape:
  assumes wf: "wf_frame (h r)"
    and liq: "float_col (h r) ''Net_Liquidity'' = Some liq"
    and btc: "float_col (h r) ''BTC_Price'' = Some btc"
    and run: "calculate_signal r h = (res, h')"
  shows "res = Inr r \<and>
         index (h' r) = index (h r) \<and>
         wf_frame (h' r) \<and>
         fst ` set (columns (h' r)) =
           fst ` set (columns (h r)) \<union> {''Liq_SMA_20'', ''BTC_SMA_20'', ''Correlation'', ''Signal''} \<and>
         (\<forall>name. name \<notin> {''Liq_SMA_20'', ''BTC_SMA_20'', ''Correlation'', ''Signal''}
            \<longrightarrow> map_of (columns (h' r)) name = map_of (columns (h r)) name) \<and>
         (fst ` set (columns (h r)) \<inter> {''Liq_SMA_20'', ''BTC_SMA_20'', ''Correlation'', ''Signal''} = {}
            \<longrightarrow> map fst (columns (h' r)) =
                 map fst (columns (h r)) @ [''Liq_SMA_20'', ''BTC_SMA_20'', ''Correlation'', ''Signal''])"
proof -
  note out = run_valid[where h=h and r=r, OF wf liq btc run]
  have wf': "wf_frame (h' r)"
    unfolding out using engine_columns_wf[OF wf input_lengths[OF wf liq btc]] by simp
  have other: "\<forall>name. name \<notin> {''Liq_SMA_20'', ''BTC_SMA_20'', ''Correlation'', ''Signal''}
            \<longrightarrow> map_of (columns (h' r)) name = map_of (columns (h r)) name"
    unfolding out using engine_columns_other by simp
  have fresh: "fst ` set (columns (h r)) \<inter> {''Liq_SMA_20'', ''BTC_SMA_20'', ''Correlation'', ''Signal''} = {}
            \<longrightarrow> map fst (columns (h' r)) =
                 map fst (columns (h r)) @ [''Liq_SMA_20'', ''BTC_SMA_20'', ''Correlation'', ''Signal'']"
    unfolding out using engine_columns_fresh[of "columns (h r)" liq btc] by simp
  have names: "fst ` set (columns (h' r)) =
           fst ` set (columns (h r)) \<union> {''Liq_SMA_20'', ''BTC_SMA_20'', ''Correlation'', ''Signal''}"
    unfolding out by (simp add: engine_columns_names)
  have "index (h' r) = index (h r)" unfolding out by simp
  with out(1) wf' names other fresh show ?thesis by blast
qed

text \<open>The shape of the output for the single-row frame.\<close>

theorem calculate_signal_output_shape_witness:
  "wf_frame (store_of single_row_frame 0) \<and>
   fst (calculate_signal 0 (store_of single_row_frame)) = Inr 0 \<and>
   index (snd (calculate_signal 0 (store_of single_row_frame)) 0) = [0] \<and>
   wf_frame (snd (calculate_signal 0 (store_of single_row_frame)) 0) \<and>
   map_of (columns (snd (calculate_signal 0 (store_of single_row_frame)) 0)) ''BTC_Price'' =
     Some (FloatCol [Finite 50]) \<and>
   map fst (columns (snd (calculate_signal 0 (store_of single_row_frame)) 0)) =
     [''Net_Liquidity'', ''BTC_Price'', ''Liq_SMA_20'', ''BTC_SMA_20'', ''Correlation'', ''Signal'']"
proof -
  let ?h = "store_of single_row_frame"
  have wf: "wf_frame (?h 0)"
    and liq: "float_col (?h 0) ''Net_Liquidity'' = Some [Finite 100]"
    and btc: "float_col (?h 0) ''BTC_Price'' = Some [Finite 50]"
    by (simp_all add: single_row_frame_facts)
  have cols: "columns (?h 0) =
      [(''Net_Liquidity'', FloatCol [Finite 100]), (''BTC_Price'', FloatCol [Finite 50])]"
    and idx: "index (?h 0) = [0]"
    by (simp_all add: single_row_frame_def)
  from calculate_signal_output_shape[where h="?h" and r=0, OF wf liq btc run_pair]
  show ?thesis using wf unfolding cols idx by simp
qed

section \<open>Warm-up rows\<close>

text \<open>
  C10: Rows 0 to 18, where both moving averages are still NaN, are labelled
  NEUTRAL.
\<close>

theorem warmup_rows_neutral:
  assumes wf: "wf_frame (h r)"
    and liq: "float_col (h r) ''Net_Liquidity'' = Some liq"
    and btc: "float_col (h r) ''BTC_Price'' = Some btc"
    and run: "calculate_signal r h = (res, h')"
  shows "\<exists>sig. label_col (h' r) ''Signal'' = Some sig \<and>
           length sig = length (index (h r)) \<and>
           (\<forall>i<length sig. i < 19 \<longrightarrow> sig ! i = NEUTRAL)"
  unfolding run_valid(2)[where h=h and r=r, OF wf liq btc run]
  using input_lengths[OF wf liq btc]
  by (simp add: output_columns[OF liq btc] status_column_nth get_status_def Let_def
      roll_mean_warmup)

text \<open>The 35-row frame at rows 0 and 18.\<close>

theorem warmup_rows_neutral_witness:
  "wf_frame (store_of flat_frame 0) \<and>
   (\<exists>sig. label_col (snd (calculate_signal 0 (store_of flat_frame)) 0) ''Signal'' = Some sig \<and>
      length sig = 35 \<and> sig ! 0 = NEUTRAL \<and> sig ! 18 = NEUTRAL)"
  using warmup_rows_neutral[where h="store_of flat_frame" and r=0, OF _ _ _ run_pair]
  by (fastforce simp: flat_frame_facts)

end
